theory Spec2Isabelle
  imports Complex_Main "HOL-Library.AList" "HOL-Library.Multiset"
begin

section \<open>JavaScript numbers\<close>

text \<open>
  The Dashboard adds amounts with the \<^verbatim>\<open>+\<close> of JavaScript, which is IEEE 754 binary64
  addition: the exact sum is rounded to the nearest representable value, ties going to
  the even significand. A finite number is represented by its exact rational value; the
  two zeros are identified (\<^verbatim>\<open>===\<close>, \<^verbatim>\<open>||\<close> and \<^verbatim>\<open>+\<close> with a non-zero operand
  do not tell them apart).
\<close>

datatype number = Fin rat | PInf | NInf | NaN

definition pow2 :: "int \<Rightarrow> rat" where
  "pow2 e = (if 0 \<le> e then 2 ^ nat e else 1 / 2 ^ nat (- e))"

function bit_length :: "int \<Rightarrow> int" where
  "bit_length n = (if n \<le> 0 then 0 else 1 + bit_length (n div 2))"
  by pat_completeness auto
termination
  by (relation "measure nat") auto

declare bit_length.simps [simp del]

text \<open>\<open>ilog2 x\<close> is the exponent of the highest power of two not above \<open>x\<close>, for \<open>0 < x\<close>.\<close>

definition ilog2 :: "rat \<Rightarrow> int" where
  "ilog2 x = (if 1 \<le> x then bit_length \<lfloor>x\<rfloor> - 1
              else - bit_length (\<lceil>1 / x\<rceil> - 1))"

definition round_half_even :: "rat \<Rightarrow> int" where
  "round_half_even x = (let f = \<lfloor>x\<rfloor>; r = x - of_int f
     in if r < 1 / 2 then f else if 1 / 2 < r then f + 1 else if even f then f else f + 1)"

text \<open>
  Rounding to binary64: the significand has 53 bits, the unit in the last place is
  \<open>2 ^ e\<close> with \<open>e\<close> at least \<open>-1074\<close> (subnormal numbers), and a result whose
  magnitude reaches \<open>2 ^ 1024\<close> (exponent above 971, or significand \<open>2 ^ 53\<close> at
  exponent 971) is an infinity.
\<close>

definition round64 :: "rat \<Rightarrow> number" where
  "round64 q = (if q = 0 then Fin 0 else
     let a = \<bar>q\<bar>; e = max (ilog2 a - 52) (- 1074);
         m = round_half_even (a / pow2 e); r = of_int m * pow2 e
     in if 971 < e \<or> (e = 971 \<and> 2 ^ 53 \<le> m) then (if 0 < q then PInf else NInf)
        else Fin (if 0 < q then r else - r))"

text \<open>The \<^verbatim>\<open>+\<close> of two numbers.\<close>

fun fadd :: "number \<Rightarrow> number \<Rightarrow> number" where
  "fadd NaN _ = NaN"
| "fadd _ NaN = NaN"
| "fadd PInf NInf = NaN"
| "fadd NInf PInf = NaN"
| "fadd PInf _ = PInf"
| "fadd _ PInf = PInf"
| "fadd NInf _ = NInf"
| "fadd _ NInf = NInf"
| "fadd (Fin a) (Fin b) = round64 (a + b)"

subsection \<open>The rounding function\<close>

lemma bit_length_nonneg: "0 \<le> bit_length n"
proof (induction n rule: bit_length.induct)
  case (1 n)
  then show ?case by (cases "n \<le> 0") (simp_all add: bit_length.simps [of n])
qed

lemma bit_length_pos: "0 < n \<Longrightarrow> 0 < bit_length n"
  using bit_length_nonneg [of "n div 2"] by (simp add: bit_length.simps [of n])

lemma bit_length_bounds:
  "0 < n \<Longrightarrow> 2 ^ nat (bit_length n - 1) \<le> n \<and> n < 2 ^ nat (bit_length n)"
proof (induction n rule: bit_length.induct)
  case (1 n)
  show ?case
  proof (cases "n = 1")
    case True
    then show ?thesis by (simp add: bit_length.simps [of 1] bit_length.simps [of 0])
  next
    case False
    with 1 have half: "0 < n div 2" by simp
    then have IH: "2 ^ nat (bit_length (n div 2) - 1) \<le> n div 2" "n div 2 < 2 ^ nat (bit_length (n div 2))"
      using 1 by simp_all
    have bl: "bit_length n = 1 + bit_length (n div 2)"
      using 1 by (simp add: bit_length.simps [of n])
    have pos: "0 < bit_length (n div 2)"
      using half by (rule bit_length_pos)
    have e1: "nat (bit_length n - 1) = Suc (nat (bit_length (n div 2) - 1))"
      using pos bl by simp
    have e2: "nat (bit_length n) = Suc (nat (bit_length (n div 2)))"
      using pos bl by simp
    show ?thesis
      unfolding e1 e2 using IH by simp presburger
  qed
qed

lemma pow2_nonneg_exp: "0 \<le> e \<Longrightarrow> pow2 e = 2 ^ nat e"
  by (simp add: pow2_def)

lemma pow2_neg_exp: "e \<le> 0 \<Longrightarrow> pow2 e = 1 / 2 ^ nat (- e)"
  by (cases "e = 0") (simp_all add: pow2_def)

lemma ilog2_bounds:
  assumes "0 < x"
  shows "pow2 (ilog2 x) \<le> x \<and> x < pow2 (ilog2 x + 1)"
proof (cases "1 \<le> x")
  case True
  let ?n = "\<lfloor>x\<rfloor>"
  have n: "0 < ?n" using True by simp
  have k: "ilog2 x = bit_length ?n - 1" using True by (simp add: ilog2_def)
  have bl: "0 < bit_length ?n" using n by (rule bit_length_pos)
  have lo: "(2::int) ^ nat (bit_length ?n - 1) \<le> ?n" and hi: "?n < 2 ^ nat (bit_length ?n)"
    using bit_length_bounds [OF n] by simp_all
  have "(of_int ((2::int) ^ nat (bit_length ?n - 1)) :: rat) \<le> of_int ?n"
    using lo by (simp only: of_int_le_iff)
  also have "\<dots> \<le> x"
    using floor_correct [of x] by simp
  finally have low: "pow2 (ilog2 x) \<le> x"
    using bl by (simp add: k pow2_nonneg_exp)
  have "x < of_int (?n + 1)"
    using floor_correct [of x] by simp
  also have "(of_int (?n + 1) :: rat) \<le> of_int ((2::int) ^ nat (bit_length ?n))"
    using hi by (simp only: of_int_le_iff)
  finally have "x < of_int ((2::int) ^ nat (bit_length ?n))" .
  then have "x < pow2 (ilog2 x + 1)"
    using bl by (simp add: k pow2_nonneg_exp)
  with low show ?thesis by simp
next
  case False
  let ?y = "1 / x"
  let ?n = "\<lceil>?y\<rceil> - 1"
  have y: "1 < ?y" using False assms by simp
  then have "1 < \<lceil>?y\<rceil>"
    by (simp add: less_ceiling_iff)
  then have n: "0 < ?n" by simp
  have k: "ilog2 x = - bit_length ?n" using False by (simp add: ilog2_def)
  have bl: "0 < bit_length ?n" using n by (rule bit_length_pos)
  have lo: "(2::int) ^ nat (bit_length ?n - 1) \<le> ?n" and hi: "?n < 2 ^ nat (bit_length ?n)"
    using bit_length_bounds [OF n] by simp_all
  have "?y \<le> of_int (?n + 1)"
    using ceiling_correct [of ?y] by simp
  also have "\<dots> \<le> of_int ((2::int) ^ nat (bit_length ?n))"
    using hi by (simp only: of_int_le_iff)
  finally have "?y \<le> 2 ^ nat (bit_length ?n)" by simp
  then have "1 / 2 ^ nat (bit_length ?n) \<le> x"
    using assms by (simp add: field_simps)
  then have low: "pow2 (ilog2 x) \<le> x"
    using bl by (simp add: k pow2_neg_exp)
  have "(of_int ((2::int) ^ nat (bit_length ?n - 1)) :: rat) \<le> of_int ?n"
    using lo by (simp only: of_int_le_iff)
  also have "(of_int ?n :: rat) < ?y"
    using ceiling_correct [of ?y] by simp
  finally have "2 ^ nat (bit_length ?n - 1) < ?y" by simp
  then have "x < 1 / 2 ^ nat (bit_length ?n - 1)"
    using assms by (simp add: field_simps)
  moreover have "pow2 (ilog2 x + 1) = 1 / 2 ^ nat (bit_length ?n - 1)"
    using bl by (simp add: k pow2_neg_exp)
  ultimately show ?thesis using low by simp
qed

lemma pow2_powi: "pow2 e = power_int 2 e"
  by (simp add: pow2_def power_int_def inverse_eq_divide power_one_over)

lemma pow2_pos: "0 < pow2 e"
  by (simp add: pow2_powi)

lemma pow2_add: "pow2 (a + b) = pow2 a * pow2 b"
  by (simp add: pow2_powi power_int_add)

lemma round_half_even_of_int: "round_half_even (of_int n) = n"
  by (simp add: round_half_even_def)

text \<open>Rounding leaves every binary64 number as it is.\<close>

lemma round64_representable:
  assumes m: "\<bar>m\<bar> < 2 ^ 53" and e: "- 1074 \<le> e" "e \<le> 971"
  shows "round64 (of_int m * pow2 e) = Fin (of_int m * pow2 e)"
proof (cases "m = 0")
  case True
  then show ?thesis by (simp add: round64_def)
next
  case False
  let ?q = "of_int m * pow2 e :: rat"
  let ?a = "\<bar>?q\<bar>"
  let ?E = "max (ilog2 ?a - 52) (- 1074)"
  have a: "?a = of_int \<bar>m\<bar> * pow2 e"
    using pow2_pos [of e] by (simp add: abs_mult)
  have a_pos: "0 < ?a"
    using False pow2_pos [of e] by simp
  have "pow2 (ilog2 ?a) \<le> ?a"
    using ilog2_bounds [OF a_pos] by simp
  also have "?a < of_int (2 ^ 53) * pow2 e"
    unfolding a using m pow2_pos [of e]
    by (intro mult_strict_right_mono) (simp_all only: of_int_less_iff)
  also have "\<dots> = pow2 53 * pow2 e"
    by (simp add: pow2_def [of 53])
  also have "\<dots> = pow2 (53 + e)"
    by (simp only: pow2_add)
  finally have "power_int (2::rat) (ilog2 ?a) < power_int 2 (53 + e)"
    by (simp add: pow2_powi)
  then have "ilog2 ?a < 53 + e"
    by (smt (verit) power_int_increasing one_le_numeral not_less)
  then have E_le: "?E \<le> e"
    using e by simp
  define d where "d = e - ?E"
  have d: "0 \<le> d" "e = ?E + d"
    using E_le by (simp_all add: d_def)
  have "?a / pow2 ?E = of_int \<bar>m\<bar> * pow2 d"
    using pow2_pos [of ?E] by (subst a, subst d(2)) (simp add: pow2_add)
  also have "\<dots> = of_int (\<bar>m\<bar> * 2 ^ nat d)"
    using d(1) by (simp add: pow2_def)
  finally have quot: "?a / pow2 ?E = of_int (\<bar>m\<bar> * 2 ^ nat d)" .
  have sig: "round_half_even (?a / pow2 ?E) = \<bar>m\<bar> * 2 ^ nat d"
    unfolding quot by (rule round_half_even_of_int)
  have restore: "of_int (\<bar>m\<bar> * 2 ^ nat d) * pow2 ?E = ?a"
    using quot pow2_pos [of ?E] by (simp add: field_simps)
  have no_overflow: "\<not> (971 < ?E \<or> (?E = 971 \<and> 2 ^ 53 \<le> \<bar>m\<bar> * 2 ^ nat d))"
  proof -
    have "?E \<le> 971" using E_le e by simp
    moreover have "\<bar>m\<bar> * 2 ^ nat d < 2 ^ 53" if "?E = 971"
    proof -
      from that E_le e have "d = 0" by (simp add: d_def)
      then show ?thesis using m by simp
    qed
    ultimately show ?thesis by (smt (verit))
  qed
  have "?q \<noteq> 0"
    using a_pos by simp
  then show ?thesis
    unfolding round64_def Let_def sig restore
    using no_overflow by (simp add: abs_if split: if_splits)
qed

lemma round_half_even_error: "\<bar>of_int (round_half_even x) - x\<bar> \<le> 1 / 2"
proof -
  let ?f = "of_int \<lfloor>x\<rfloor> :: rat"
  have f: "?f \<le> x" "x < ?f + 1"
    using floor_correct [of x] by simp_all
  consider "x - ?f < 1 / 2" | "1 / 2 < x - ?f" | "x - ?f = 1 / 2"
    by linarith
  then show ?thesis
  proof cases
    case 1
    then have "round_half_even x = \<lfloor>x\<rfloor>"
      by (simp add: round_half_even_def Let_def)
    with f 1 show ?thesis by (simp add: abs_le_iff)
  next
    case 2
    then have "round_half_even x = \<lfloor>x\<rfloor> + 1"
      by (simp add: round_half_even_def Let_def)
    with f 2 show ?thesis by (simp add: abs_le_iff)
  next
    case 3
    then have "round_half_even x = \<lfloor>x\<rfloor> \<or> round_half_even x = \<lfloor>x\<rfloor> + 1"
      by (simp add: round_half_even_def Let_def)
    with f 3 show ?thesis by (auto simp: abs_le_iff)
  qed
qed

lemma round_half_even_bounds:
  assumes "0 \<le> x" "x \<le> of_int n"
  shows "0 \<le> round_half_even x \<and> round_half_even x \<le> n"
proof -
  have "\<lfloor>x\<rfloor> \<le> n" using assms(2) by (simp add: floor_le_iff)
  moreover have "\<lfloor>x\<rfloor> + 1 \<le> n" if "of_int \<lfloor>x\<rfloor> < x"
  proof -
    from that assms(2) have "(of_int \<lfloor>x\<rfloor> :: rat) < of_int n" by simp
    then have "\<lfloor>x\<rfloor> < n" by (simp only: of_int_less_iff)
    then show ?thesis by simp
  qed
  moreover have "0 \<le> \<lfloor>x\<rfloor>" using assms(1) by simp
  ultimately show ?thesis
    by (auto simp: round_half_even_def Let_def)
qed

text \<open>The error of rounding is at most half a unit in the last place.\<close>

lemma round64_error:
  assumes "round64 q = Fin r"
  shows "\<bar>r - q\<bar> \<le> pow2 (max (ilog2 \<bar>q\<bar> - 52) (- 1074)) / 2"
proof (cases "q = 0")
  case True
  with assms show ?thesis using pow2_pos [of "max (ilog2 \<bar>q\<bar> - 52) (- 1074)"]
    by (simp add: round64_def)
next
  case False
  define E where "E = max (ilog2 \<bar>q\<bar> - 52) (- 1074)"
  define M where "M = round_half_even (\<bar>q\<bar> / pow2 E)"
  have r: "r = (if 0 < q then of_int M * pow2 E else - (of_int M * pow2 E))"
    using assms False unfolding E_def M_def
    by (simp add: round64_def Let_def split: if_splits)
  have eq: "of_int M * pow2 E - \<bar>q\<bar> = (of_int M - \<bar>q\<bar> / pow2 E) * pow2 E"
    using pow2_pos [of E] by (simp add: field_simps)
  have "\<bar>of_int M * pow2 E - \<bar>q\<bar>\<bar> = \<bar>of_int M - \<bar>q\<bar> / pow2 E\<bar> * pow2 E"
    unfolding eq using pow2_pos [of E] by (simp add: abs_mult)
  also have "\<dots> \<le> 1 / 2 * pow2 E"
    using round_half_even_error [of "\<bar>q\<bar> / pow2 E"] pow2_pos [of E]
    unfolding M_def by (intro mult_right_mono) simp_all
  finally have "\<bar>of_int M * pow2 E - \<bar>q\<bar>\<bar> \<le> pow2 E / 2" by simp
  then have "\<bar>r - q\<bar> \<le> pow2 E / 2"
    using False by (cases "0 < q") (simp_all add: r abs_if split: if_splits)
  then show ?thesis by (simp only: E_def)
qed

text \<open>The result of rounding is a binary64 number.\<close>

lemma round64_Fin_representable:
  assumes "round64 q = Fin r"
  shows "\<exists>m e. \<bar>m\<bar> < 2 ^ 53 \<and> - 1074 \<le> e \<and> e \<le> 971 \<and> r = of_int m * pow2 e"
proof (cases "q = 0")
  case True
  with assms have "r = of_int 0 * pow2 0" by (simp add: round64_def)
  then show ?thesis by (intro exI [of _ 0]) simp
next
  case False
  define E where "E = max (ilog2 \<bar>q\<bar> - 52) (- 1074)"
  define M where "M = round_half_even (\<bar>q\<bar> / pow2 E)"
  have a_pos: "0 < \<bar>q\<bar>" using False by simp
  have E_lo: "- 1074 \<le> E" and E_log: "ilog2 \<bar>q\<bar> + 1 \<le> E + 53"
    by (simp_all add: E_def)
  have unfolded: "round64 q = (if 971 < E \<or> (E = 971 \<and> 2 ^ 53 \<le> M)
      then (if 0 < q then PInf else NInf)
      else Fin (if 0 < q then of_int M * pow2 E else - (of_int M * pow2 E)))"
    unfolding round64_def Let_def E_def M_def using False by (simp only: if_False)
  have fits: "\<not> (971 < E \<or> (E = 971 \<and> 2 ^ 53 \<le> M))"
  proof
    assume "971 < E \<or> (E = 971 \<and> 2 ^ 53 \<le> M)"
    then have "round64 q = (if 0 < q then PInf else NInf)"
      by (simp only: unfolded if_True)
    with assms show False by (simp split: if_splits)
  qed
  then have no_overflow: "\<not> 971 < E" "E = 971 \<longrightarrow> M < 2 ^ 53"
    by auto
  have "Fin r = Fin (if 0 < q then of_int M * pow2 E else - (of_int M * pow2 E))"
    using assms fits by (simp only: unfolded if_False)
  then have r: "r = of_int (if 0 < q then M else - M) * pow2 E"
    by simp
  have "\<bar>q\<bar> < pow2 (ilog2 \<bar>q\<bar> + 1)"
    using ilog2_bounds [OF a_pos] by simp
  also have "\<dots> \<le> pow2 (E + 53)"
    unfolding pow2_powi using E_log by (intro power_int_increasing) simp_all
  also have "\<dots> = pow2 E * of_int (2 ^ 53)"
    by (simp only: pow2_add) (simp add: pow2_def [of 53])
  finally have "\<bar>q\<bar> / pow2 E < of_int (2 ^ 53)"
    using pow2_pos [of E] by (simp add: field_simps)
  moreover have "0 \<le> \<bar>q\<bar> / pow2 E"
    using pow2_pos [of E] by simp
  ultimately have M: "0 \<le> M" "M \<le> 2 ^ 53"
    using round_half_even_bounds [of "\<bar>q\<bar> / pow2 E" "2 ^ 53"] unfolding M_def by simp_all
  show ?thesis
  proof (cases "M = 2 ^ 53")
    case True
    with no_overflow have E: "E \<le> 970" by auto
    have "r = of_int (if 0 < q then 2 ^ 52 else - (2 ^ 52)) * pow2 (E + 1)"
      unfolding r True pow2_add by (simp add: pow2_def [of 1])
    moreover have "\<bar>if 0 < q then 2 ^ 52 else - (2 ^ 52) :: int\<bar> < 2 ^ 53" by simp
    moreover have "- 1074 \<le> E + 1" "E + 1 \<le> 971" using E E_lo by simp_all
    ultimately show ?thesis by blast
  next
    case False
    with M have "\<bar>if 0 < q then M else - M\<bar> < 2 ^ 53" by simp
    moreover have "E \<le> 971" using no_overflow by simp
    ultimately show ?thesis using r E_lo by blast
  qed
qed

text \<open>
  A binary64 number is \<open>m * 2 ^ e\<close> with a significand below \<open>2 ^ 53\<close> and an exponent
  from \<open>-1074\<close> to \<open>971\<close>. An addition of two finite numbers is exact precisely when
  the sum is such a number.
\<close>

definition binary64 :: "rat \<Rightarrow> bool" where
  "binary64 q = (\<exists>m e. \<bar>m\<bar> < 2 ^ 53 \<and> - 1074 \<le> e \<and> e \<le> 971 \<and> q = of_int m * pow2 e)"

lemma round64_exact_iff: "round64 q = Fin q \<longleftrightarrow> binary64 q"
  unfolding binary64_def
  using round64_representable round64_Fin_representable [of q q] by blast

lemma fadd_exact_iff: "fadd (Fin a) (Fin b) = Fin (a + b) \<longleftrightarrow> binary64 (a + b)"
  by (simp add: round64_exact_iff)

lemma round64_examples:
  "round64 (2 ^ 53 + 1) = Fin (2 ^ 53)" "round64 (2 ^ 53 + 3) = Fin (2 ^ 53 + 4)"
  "round64 (- 1 / 3) = Fin (- 6004799503160661 / 2 ^ 54)" "round64 (4 / 10) = Fin (3602879701896397 / 2 ^ 53)"
  "round64 (6 / 10) = Fin (5404319552844595 / 2 ^ 53)"
  by code_simp+

section \<open>Expense records and the aggregation of the Dashboard\<close>

text \<open>
  \<^verbatim>\<open>interface Expense\<close>. The amount is a finite number (the JSON response of the store
  cannot carry \<^verbatim>\<open>NaN\<close> or an infinity), given by its exact value.
\<close>

record expense =
  expense_id :: string
  amount :: rat
  category :: string
  description :: string
  date :: string
  created_at :: string

text \<open>
  \<^verbatim>\<open>const totalExpenses = expenses.reduce((sum, expense) => sum + expense.amount, 0)\<close>
\<close>

definition totalExpenses :: "expense list \<Rightarrow> number" where
  "totalExpenses expenses = foldl (\<lambda>sum expense. fadd sum (Fin (amount expense))) (Fin 0) expenses"

text \<open>
  Adding the amounts \<open>as\<close> to \<open>s\<close> from left to right never rounds: every partial sum is
  itself a binary64 number (lemma \<open>fadd_exact_iff\<close>).
\<close>

fun adds_exactly :: "rat \<Rightarrow> rat list \<Rightarrow> bool" where
  "adds_exactly s [] = True"
| "adds_exactly s (a # as) = (fadd (Fin s) (Fin a) = Fin (s + a) \<and> adds_exactly (s + a) as)"

definition exact_total :: "expense list \<Rightarrow> bool" where
  "exact_total expenses = adds_exactly 0 (map amount expenses)"

text \<open>Sample records: the amounts are the binary64 numbers nearest to 0.1, 0.2 and 0.3.\<close>

definition expense_of :: "string \<Rightarrow> rat \<Rightarrow> string \<Rightarrow> expense" where
  "expense_of i a c = \<lparr>expense_id = i, amount = a, category = c, description = ''item'',
     date = ''2024-01-15'', created_at = ''2024-01-15T10:00:00+00:00''\<rparr>"

definition tenth :: rat where "tenth = 3602879701896397 / 2 ^ 55"
definition two_tenths :: rat where "two_tenths = 3602879701896397 / 2 ^ 54"
definition three_tenths :: rat where "three_tenths = 5404319552844595 / 2 ^ 54"

lemma decimal_amounts:
  "round64 (1 / 10) = Fin tenth" "round64 (2 / 10) = Fin two_tenths"
  "round64 (3 / 10) = Fin three_tenths"
  by code_simp+

lemma round64_not_NaN: "round64 q \<noteq> NaN"
  by (simp add: round64_def Let_def)

lemma fadd_Fin_not_NaN: "x \<noteq> NaN \<Longrightarrow> fadd x (Fin a) \<noteq> NaN"
  by (cases x) (simp_all add: round64_not_NaN)

lemma foldl_adds_exactly:
  "adds_exactly s as \<Longrightarrow> foldl (\<lambda>sum a. fadd sum (Fin a)) (Fin s) as = Fin (s + sum_list as)"
  by (induction as arbitrary: s) (simp_all add: add.assoc)

lemma totalExpenses_foldl_amounts:
  "totalExpenses es = foldl (\<lambda>sum a. fadd sum (Fin a)) (Fin 0) (map amount es)"
  by (simp add: totalExpenses_def foldl_map)

lemma totalExpenses_snoc:
  "totalExpenses (es @ [e]) = fadd (totalExpenses es) (Fin (amount e))"
  by (simp add: totalExpenses_def)

lemma totalExpenses_not_NaN: "totalExpenses es \<noteq> NaN"
  by (induction es rule: rev_induct)
     (simp_all add: totalExpenses_snoc fadd_Fin_not_NaN, simp add: totalExpenses_def)

lemma exact_total_sum:
  "exact_total es \<Longrightarrow> totalExpenses es = Fin (sum_list (map amount es))"
  using foldl_adds_exactly [of 0 "map amount es"]
  by (simp add: exact_total_def totalExpenses_foldl_amounts)

lemma sum_list_amount_mset:
  "mset es' = mset es \<Longrightarrow> sum_list (map amount es') = sum_list (map amount es)"
proof -
  assume "mset es' = mset es"
  then have "mset (map amount es') = mset (map amount es)"
    by simp
  then have "sum_mset (mset (map amount es')) = sum_mset (mset (map amount es))"
    by (rule arg_cong)
  then show ?thesis
    by (simp only: sum_mset_sum_list)
qed

text \<open>
  C1, as the code has it. The total is the left-to-right binary64 sum of the amounts.
  Where no addition rounds it is the arithmetic sum of the amounts, and every reordering
  of the records whose additions do not round either gives the same total.
\<close>

theorem totalExpenses_sum_when_exact:
  assumes "exact_total es"
  shows "totalExpenses es = Fin (sum_list (map amount es)) \<and>
         (\<forall>es'. mset es' = mset es \<and> exact_total es' \<longrightarrow> totalExpenses es' = totalExpenses es)"
proof
  show total: "totalExpenses es = Fin (sum_list (map amount es))"
    using assms by (rule exact_total_sum)
  show "\<forall>es'. mset es' = mset es \<and> exact_total es' \<longrightarrow> totalExpenses es' = totalExpenses es"
  proof (intro allI impI)
    fix es'
    assume perm: "mset es' = mset es \<and> exact_total es'"
    then have "totalExpenses es' = Fin (sum_list (map amount es'))"
      by (simp add: exact_total_sum)
    moreover have "sum_list (map amount es') = sum_list (map amount es)"
      using perm by (intro sum_list_amount_mset) simp
    ultimately show "totalExpenses es' = totalExpenses es"
      using total by simp
  qed
qed

lemma exact_total_sample:
  "exact_total [expense_of ''1'' (25 / 2) ''groceries'', expense_of ''2'' (1 / 4) ''water'',
     expense_of ''3'' (31 / 4) ''groceries'']"
  "exact_total [expense_of ''3'' (31 / 4) ''groceries'', expense_of ''2'' (1 / 4) ''water'',
     expense_of ''1'' (25 / 2) ''groceries'']"
  by code_simp+

theorem totalExpenses_sum_when_exact_witness:
  "exact_total [expense_of ''1'' (25 / 2) ''groceries'', expense_of ''2'' (1 / 4) ''water'',
     expense_of ''3'' (31 / 4) ''groceries''] \<and>
   totalExpenses [expense_of ''1'' (25 / 2) ''groceries'', expense_of ''2'' (1 / 4) ''water'',
     expense_of ''3'' (31 / 4) ''groceries''] = Fin (41 / 2) \<and>
   totalExpenses [expense_of ''3'' (31 / 4) ''groceries'', expense_of ''2'' (1 / 4) ''water'',
     expense_of ''1'' (25 / 2) ''groceries''] = Fin (41 / 2)"
proof -
  let ?es = "[expense_of ''1'' (25 / 2) ''groceries'', expense_of ''2'' (1 / 4) ''water'',
     expense_of ''3'' (31 / 4) ''groceries'']"
  let ?es' = "[expense_of ''3'' (31 / 4) ''groceries'', expense_of ''2'' (1 / 4) ''water'',
     expense_of ''1'' (25 / 2) ''groceries'']"
  note inst = totalExpenses_sum_when_exact [OF exact_total_sample(1)]
  have total: "totalExpenses ?es = Fin (41 / 2)"
    using inst by (simp add: expense_of_def)
  have "mset ?es' = mset ?es"
    by (simp add: add_mset_commute)
  then have "totalExpenses ?es' = totalExpenses ?es"
    using inst exact_total_sample(2) by blast
  then show ?thesis
    using total exact_total_sample(1) by simp
qed

text \<open>
  The claim as stated fails: 0.1 + 0.2 + 0.3 is not 0.3 + 0.2 + 0.1 in binary64, and
  neither total need be the arithmetic sum of the three amounts.
\<close>

theorem totalExpenses_order_counterexample:
  "mset [expense_of ''3'' three_tenths ''gas'', expense_of ''2'' two_tenths ''gas'',
         expense_of ''1'' tenth ''gas'']
     = mset [expense_of ''1'' tenth ''gas'', expense_of ''2'' two_tenths ''gas'',
         expense_of ''3'' three_tenths ''gas''] \<and>
   totalExpenses [expense_of ''1'' tenth ''gas'', expense_of ''2'' two_tenths ''gas'',
         expense_of ''3'' three_tenths ''gas''] = Fin (1351079888211149 / 2 ^ 51) \<and>
   totalExpenses [expense_of ''3'' three_tenths ''gas'', expense_of ''2'' two_tenths ''gas'',
         expense_of ''1'' tenth ''gas''] = Fin (5404319552844595 / 2 ^ 53) \<and>
   sum_list (map amount [expense_of ''1'' tenth ''gas'', expense_of ''2'' two_tenths ''gas'',
         expense_of ''3'' three_tenths ''gas'']) = 21617278211378381 / 2 ^ 55"
proof (intro conjI)
  show "mset [expense_of ''3'' three_tenths ''gas'', expense_of ''2'' two_tenths ''gas'',
         expense_of ''1'' tenth ''gas'']
     = mset [expense_of ''1'' tenth ''gas'', expense_of ''2'' two_tenths ''gas'',
         expense_of ''3'' three_tenths ''gas'']"
    by (simp add: add_mset_commute)
qed code_simp+

section \<open>The per-category object\<close>

text \<open>
  \<^verbatim>\<open>expenses.reduce((acc, expense) => { acc[expense.category] =
  (acc[expense.category] || 0) + expense.amount; return acc }, {})\<close>.
  The accumulator is a plain object: its own properties are listed in creation order
  (\<^verbatim>\<open>Object.entries\<close> lists names that are array indices first; nothing below depends
  on the order), and a name it does not own is looked up in \<^verbatim>\<open>Object.prototype\<close>,
  which holds built-in functions and the accessor \<^verbatim>\<open>__proto__\<close>.
\<close>

datatype jsstring =
    Chars string  \<comment> \<open>a string given by its characters\<close>
  | BuiltinText string  \<comment> \<open>the string conversion of the built-in inherited under that name\<close>
  | Appended jsstring number  \<comment> \<open>a string followed by the decimal rendering of a number\<close>

datatype jsval = Undefined | Num number | Str jsstring | Builtin string

type_synonym jsobject = "(string \<times> jsval) list"

definition object_prototype_names :: "string list" where
  "object_prototype_names = [''constructor'', ''__defineGetter__'', ''__defineSetter__'',
     ''hasOwnProperty'', ''__lookupGetter__'', ''__lookupSetter__'', ''isPrototypeOf'',
     ''propertyIsEnumerable'', ''toString'', ''valueOf'', ''__proto__'', ''toLocaleString'']"

text \<open>\<^verbatim>\<open>acc[k]\<close> read: an own property, else the inherited one, else \<^verbatim>\<open>undefined\<close>.\<close>

definition get_prop :: "jsobject \<Rightarrow> string \<Rightarrow> jsval" where
  "get_prop acc k = (case map_of acc k of Some v \<Rightarrow> v
     | None \<Rightarrow> if k \<in> set object_prototype_names then Builtin k else Undefined)"

text \<open>
  \<^verbatim>\<open>acc[k] = v\<close> for a primitive \<open>v\<close>: the inherited \<^verbatim>\<open>__proto__\<close> setter ignores a
  value that is neither an object nor null; any other name becomes (or stays) an own
  property.
\<close>

definition set_prop :: "jsobject \<Rightarrow> string \<Rightarrow> jsval \<Rightarrow> jsobject" where
  "set_prop acc k v = (if k = ''__proto__'' then acc else AList.update k v acc)"

fun nonempty :: "jsstring \<Rightarrow> bool" where
  "nonempty (Chars cs) = (cs \<noteq> [])"
| "nonempty (BuiltinText k) = True"
| "nonempty (Appended s n) = True"

fun truthy :: "jsval \<Rightarrow> bool" where
  "truthy Undefined = False"
| "truthy (Num n) = (n \<noteq> Fin 0 \<and> n \<noteq> NaN)"
| "truthy (Str s) = nonempty s"
| "truthy (Builtin k) = True"

definition js_or :: "jsval \<Rightarrow> jsval \<Rightarrow> jsval" where
  "js_or a b = (if truthy a then a else b)"

text \<open>\<^verbatim>\<open>a + n\<close> for a number \<open>n\<close>: numeric addition, or concatenation when \<open>a\<close> is a
  string or converts to one.\<close>

fun js_add :: "jsval \<Rightarrow> number \<Rightarrow> jsval" where
  "js_add (Num a) n = Num (fadd a n)"
| "js_add Undefined n = Num NaN"
| "js_add (Str s) n = Str (Appended s n)"
| "js_add (Builtin k) n = Str (Appended (BuiltinText k) n)"

definition expensesByCategory :: "expense list \<Rightarrow> jsobject" where
  "expensesByCategory expenses = foldl (\<lambda>acc expense.
     set_prop acc (category expense)
       (js_add (js_or (get_prop acc (category expense)) (Num (Fin 0))) (Fin (amount expense))))
     [] expenses"

text \<open>The sum of the values of an object whose values are all finite numbers.\<close>

fun finite_of :: "jsval \<Rightarrow> rat option" where
  "finite_of (Num (Fin q)) = Some q"
| "finite_of _ = None"

fun sum_of_values :: "jsobject \<Rightarrow> rat option" where
  "sum_of_values [] = Some 0"
| "sum_of_values ((k, v) # al) = (case (finite_of v, sum_of_values al) of
     (Some q, Some s) \<Rightarrow> Some (q + s) | _ \<Rightarrow> None)"

lemma expensesByCategory_snoc:
  "expensesByCategory (es @ [e]) = set_prop (expensesByCategory es) (category e)
     (js_add (js_or (get_prop (expensesByCategory es) (category e)) (Num (Fin 0)))
        (Fin (amount e)))"
  by (simp add: expensesByCategory_def)

lemma js_or_total: "js_or (Num (totalExpenses es)) (Num (Fin 0)) = Num (totalExpenses es)"
  using totalExpenses_not_NaN [of es] by (simp add: js_or_def)

lemma totalExpenses_Nil: "totalExpenses [] = Fin 0"
  by (simp add: totalExpenses_def)

lemma not_inherited_not_proto: "k \<notin> set object_prototype_names \<Longrightarrow> k \<noteq> ''__proto__''"
  by (auto simp: object_prototype_names_def)

lemma expensesByCategory_map_of:
  "\<forall>e\<in>set es. category e \<notin> set object_prototype_names \<Longrightarrow>
   map_of (expensesByCategory es) c =
     (if c \<in> category ` set es
      then Some (Num (totalExpenses (filter (\<lambda>e. category e = c) es))) else None)"
proof (induction es arbitrary: c rule: rev_induct)
  case Nil
  show ?case by (simp add: expensesByCategory_def)
next
  case (snoc e es)
  let ?k = "category e"
  let ?acc = "expensesByCategory es"
  have own: "?k \<notin> set object_prototype_names" and rest: "\<forall>e\<in>set es. category e \<notin> set object_prototype_names"
    using snoc.prems by simp_all
  note IH = snoc.IH [OF rest]
  have old: "js_or (get_prop ?acc ?k) (Num (Fin 0))
      = Num (totalExpenses (filter (\<lambda>x. category x = ?k) es))"
  proof (cases "?k \<in> category ` set es")
    case True
    then show ?thesis
      by (simp add: get_prop_def IH js_or_total)
  next
    case False
    then have "\<forall>x\<in>set es. category x \<noteq> ?k"
      by (metis imageI)
    then have "filter (\<lambda>x. category x = ?k) es = []"
      by (simp add: filter_empty_conv)
    with False own show ?thesis
      by (simp add: get_prop_def IH js_or_def totalExpenses_Nil)
  qed
  have upd: "expensesByCategory (es @ [e]) = AList.update ?k
      (Num (totalExpenses (filter (\<lambda>x. category x = ?k) es @ [e]))) ?acc"
    using not_inherited_not_proto [OF own]
    by (simp add: expensesByCategory_snoc old set_prop_def totalExpenses_snoc)
  show ?case
  proof (cases "c = ?k")
    case True
    then show ?thesis by (simp add: upd update_conv')
  next
    case False
    then have "category e \<noteq> c" by simp
    with False show ?thesis
      by (simp add: upd update_conv' IH)
  qed
qed

lemma expensesByCategory_distinct: "distinct (map fst (expensesByCategory es))"
  by (induction es rule: rev_induct)
     (simp_all add: expensesByCategory_snoc set_prop_def distinct_update, simp add: expensesByCategory_def)

lemma expensesByCategory_keys:
  assumes "\<forall>e\<in>set es. category e \<notin> set object_prototype_names"
  shows "fst ` set (expensesByCategory es) = category ` set es"
proof -
  have "dom (map_of (expensesByCategory es)) = category ` set es"
    using expensesByCategory_map_of [OF assms] by (auto simp: dom_def split: if_splits)
  then show ?thesis
    by (simp add: dom_map_of_conv_image_fst)
qed

text \<open>
  C2, as the code has it. For records whose categories are not names that a plain
  object inherits from \<^verbatim>\<open>Object.prototype\<close> (the four categories of the entry form are
  not), the object has a key exactly for the categories that occur, and a category
  without a record has no key. The value under a key is the left-to-right binary64 sum
  of the amounts of the records of that category, in list order (the Dashboard's total
  of those records); where no addition rounds, it is the arithmetic sum of those amounts.
\<close>

theorem expensesByCategory_keys_and_sums:
  assumes "\<forall>e\<in>set es. category e \<notin> set object_prototype_names"
  shows "(c \<in> fst ` set (expensesByCategory es)) = (c \<in> category ` set es) \<and>
         map_of (expensesByCategory es) c =
           (if c \<in> category ` set es
            then Some (Num (totalExpenses (filter (\<lambda>e. category e = c) es))) else None) \<and>
         (c \<in> category ` set es \<and> exact_total (filter (\<lambda>e. category e = c) es) \<longrightarrow>
            map_of (expensesByCategory es) c =
              Some (Num (Fin (sum_list (map amount (filter (\<lambda>e. category e = c) es))))))"
  using expensesByCategory_keys [OF assms] expensesByCategory_map_of [OF assms]
  by (simp add: exact_total_sum)

lemma sample_categories_own:
  "\<forall>e\<in>set [expense_of ''1'' (25 / 2) ''groceries'', expense_of ''2'' (1 / 4) ''water'',
     expense_of ''3'' (31 / 4) ''groceries'']. category e \<notin> set object_prototype_names"
  by (simp add: expense_of_def object_prototype_names_def)

lemma sample_groceries_total:
  "totalExpenses [expense_of ''1'' (25 / 2) ''groceries'', expense_of ''3'' (31 / 4) ''groceries'']
     = Fin (81 / 4)"
  "exact_total [expense_of ''1'' (25 / 2) ''groceries'', expense_of ''3'' (31 / 4) ''groceries'']"
  "sum_list (map amount [expense_of ''1'' (25 / 2) ''groceries'',
     expense_of ''3'' (31 / 4) ''groceries'']) = 81 / 4"
  by code_simp+

theorem expensesByCategory_keys_and_sums_witness:
  "map_of (expensesByCategory [expense_of ''1'' (25 / 2) ''groceries'',
      expense_of ''2'' (1 / 4) ''water'', expense_of ''3'' (31 / 4) ''groceries'']) ''groceries''
     = Some (Num (Fin (81 / 4))) \<and>
   ''groceries'' \<in> fst ` set (expensesByCategory [expense_of ''1'' (25 / 2) ''groceries'',
      expense_of ''2'' (1 / 4) ''water'', expense_of ''3'' (31 / 4) ''groceries'']) \<and>
   map_of (expensesByCategory [expense_of ''1'' (25 / 2) ''groceries'',
      expense_of ''2'' (1 / 4) ''water'', expense_of ''3'' (31 / 4) ''groceries'']) ''gas''
     = None"
proof -
  let ?es = "[expense_of ''1'' (25 / 2) ''groceries'', expense_of ''2'' (1 / 4) ''water'',
       expense_of ''3'' (31 / 4) ''groceries'']"
  have groceries: "filter (\<lambda>e. category e = ''groceries'') ?es
    = [expense_of ''1'' (25 / 2) ''groceries'', expense_of ''3'' (31 / 4) ''groceries'']"
    by (simp add: expense_of_def)
  have present: "''groceries'' \<in> category ` set ?es" and absent: "''gas'' \<notin> category ` set ?es"
    by (simp_all add: expense_of_def)
  note groceries_inst = expensesByCategory_keys_and_sums [OF sample_categories_own, of "''groceries''"]
  note gas_inst = expensesByCategory_keys_and_sums [OF sample_categories_own, of "''gas''"]
  have "map_of (expensesByCategory ?es) ''groceries'' = Some (Num (Fin (81 / 4)))"
    using groceries_inst present sample_groceries_total by (simp only: groceries) simp
  moreover have "''groceries'' \<in> fst ` set (expensesByCategory ?es)"
    using groceries_inst present by simp
  moreover have "map_of (expensesByCategory ?es) ''gas'' = None"
    using gas_inst absent by simp
  ultimately show ?thesis by simp
qed

text \<open>
  The claim as stated fails on an ordinary category: for three \<^verbatim>\<open>gas\<close> records of 0.1,
  0.2 and 0.3 the value under \<^verbatim>\<open>gas\<close> is 0.6000000000000001, which is not the
  arithmetic sum of the three amounts, and the same records in reverse order give 0.6.
\<close>

theorem expensesByCategory_rounding_counterexample:
  "''gas'' \<in> category ` set [expense_of ''1'' tenth ''gas'', expense_of ''2'' two_tenths ''gas'',
      expense_of ''3'' three_tenths ''gas''] \<and>
   map_of (expensesByCategory [expense_of ''1'' tenth ''gas'', expense_of ''2'' two_tenths ''gas'',
      expense_of ''3'' three_tenths ''gas'']) ''gas''
     = Some (Num (Fin (1351079888211149 / 2 ^ 51))) \<and>
   sum_list (map amount (filter (\<lambda>e. category e = ''gas'')
      [expense_of ''1'' tenth ''gas'', expense_of ''2'' two_tenths ''gas'',
       expense_of ''3'' three_tenths ''gas''])) = 21617278211378381 / 2 ^ 55 \<and>
   (1351079888211149 / 2 ^ 51 :: rat) \<noteq> 21617278211378381 / 2 ^ 55 \<and>
   map_of (expensesByCategory [expense_of ''3'' three_tenths ''gas'', expense_of ''2'' two_tenths ''gas'',
      expense_of ''1'' tenth ''gas'']) ''gas''
     = Some (Num (Fin (5404319552844595 / 2 ^ 53)))"
proof (intro conjI)
  show "''gas'' \<in> category ` set [expense_of ''1'' tenth ''gas'', expense_of ''2'' two_tenths ''gas'',
      expense_of ''3'' three_tenths ''gas'']"
    by (simp add: expense_of_def)
  show "(1351079888211149 / 2 ^ 51 :: rat) \<noteq> 21617278211378381 / 2 ^ 55"
    by simp
qed code_simp+

text \<open>
  Names that a plain object inherits are left out above. There the accumulator does
  not hold numbers: a record of category \<^verbatim>\<open>__proto__\<close> leaves no key, and under
  \<^verbatim>\<open>constructor\<close> the value is a string (the text of the inherited function followed
  by the amount), on which the \<^verbatim>\<open>amount.toFixed(2)\<close> of the card would throw.
\<close>

lemma expensesByCategory_inherited_names:
  "''__proto__'' \<in> category ` set [expense_of ''1'' (25 / 2) ''__proto__''] \<and>
   map_of (expensesByCategory [expense_of ''1'' (25 / 2) ''__proto__'']) ''__proto__'' = None \<and>
   map_of (expensesByCategory [expense_of ''2'' (25 / 2) ''constructor'']) ''constructor''
     = Some (Str (Appended (BuiltinText ''constructor'') (Fin (25 / 2))))"
  by (simp add: expensesByCategory_def expense_of_def get_prop_def set_prop_def js_or_def
      object_prototype_names_def)

lemma sum_of_values_entries:
  "\<forall>(k, v)\<in>set al. v = Num (Fin (f k)) \<Longrightarrow>
   sum_of_values al = Some (sum_list (map f (map fst al)))"
  by (induction al) auto

lemma sum_list_absent_key:
  "k \<notin> set ks \<Longrightarrow> sum_list (map (\<lambda>c. if k = c then a else 0) ks) = (0::rat)"
  by (induction ks) auto

lemma sum_list_single_key:
  "distinct ks \<Longrightarrow> k \<in> set ks \<Longrightarrow> sum_list (map (\<lambda>c. if k = c then a else 0) ks) = (a::rat)"
  by (induction ks) (auto simp: sum_list_absent_key)

lemma sum_list_by_category:
  "distinct ks \<Longrightarrow> category ` set es \<subseteq> set ks \<Longrightarrow>
   sum_list (map (\<lambda>c. sum_list (map amount (filter (\<lambda>e. category e = c) es))) ks)
     = sum_list (map amount es)"
proof (induction es)
  case Nil
  show ?case by simp
next
  case (Cons e es)
  have split: "(\<lambda>c. sum_list (map amount (filter (\<lambda>x. category x = c) (e # es))))
      = (\<lambda>c. (if category e = c then amount e else 0)
            + sum_list (map amount (filter (\<lambda>x. category x = c) es)))"
    by (rule ext) simp
  have "sum_list (map (\<lambda>c. if category e = c then amount e else 0) ks) = amount e"
    using Cons.prems by (intro sum_list_single_key) simp_all
  moreover have "sum_list (map (\<lambda>c. sum_list (map amount (filter (\<lambda>x. category x = c) es))) ks)
      = sum_list (map amount es)"
    using Cons.prems by (intro Cons.IH) simp_all
  ultimately show ?case
    by (simp only: split sum_list_addf) simp
qed

text \<open>
  C10, as the code has it. For records whose categories are not inherited names, and
  when neither the total nor any per-category sum rounds, the values of the
  per-category object add up to the total.
\<close>

theorem category_values_sum_to_total:
  assumes own: "\<forall>e\<in>set es. category e \<notin> set object_prototype_names"
    and total: "exact_total es"
    and each: "\<forall>c\<in>category ` set es. exact_total (filter (\<lambda>e. category e = c) es)"
  shows "map_option Fin (sum_of_values (expensesByCategory es)) = Some (totalExpenses es)"
proof -
  let ?al = "expensesByCategory es"
  let ?S = "\<lambda>c. sum_list (map amount (filter (\<lambda>e. category e = c) es))"
  have keys: "fst ` set ?al = category ` set es"
    using own by (rule expensesByCategory_keys)
  have "\<forall>(k, v)\<in>set ?al. v = Num (Fin (?S k))"
  proof (clarify)
    fix k v
    assume entry: "(k, v) \<in> set ?al"
    then have "map_of ?al k = Some v"
      using expensesByCategory_distinct by (intro map_of_is_SomeI)
    moreover have k: "k \<in> category ` set es"
      using entry keys by force
    ultimately have "v = Num (totalExpenses (filter (\<lambda>e. category e = k) es))"
      using expensesByCategory_map_of [OF own, of k] by simp
    moreover have "exact_total (filter (\<lambda>e. category e = k) es)"
      using each k by blast
    ultimately show "v = Num (Fin (?S k))"
      by (simp add: exact_total_sum)
  qed
  then have "sum_of_values ?al = Some (sum_list (map ?S (map fst ?al)))"
    by (rule sum_of_values_entries)
  moreover have "sum_list (map ?S (map fst ?al)) = sum_list (map amount es)"
    using keys by (intro sum_list_by_category expensesByCategory_distinct) simp
  ultimately show ?thesis
    using exact_total_sum [OF total] by simp
qed

lemma sample_categories_exact:
  "\<forall>c\<in>category ` set [expense_of ''1'' (25 / 2) ''groceries'', expense_of ''2'' (1 / 4) ''water'',
     expense_of ''3'' (31 / 4) ''groceries''].
     exact_total (filter (\<lambda>e. category e = c) [expense_of ''1'' (25 / 2) ''groceries'',
       expense_of ''2'' (1 / 4) ''water'', expense_of ''3'' (31 / 4) ''groceries''])"
  by code_simp

theorem category_values_sum_to_total_witness:
  "map_option Fin (sum_of_values (expensesByCategory [expense_of ''1'' (25 / 2) ''groceries'',
      expense_of ''2'' (1 / 4) ''water'', expense_of ''3'' (31 / 4) ''groceries'']))
     = Some (Fin (41 / 2)) \<and>
   totalExpenses [expense_of ''1'' (25 / 2) ''groceries'',
      expense_of ''2'' (1 / 4) ''water'', expense_of ''3'' (31 / 4) ''groceries''] = Fin (41 / 2)"
proof -
  have "totalExpenses [expense_of ''1'' (25 / 2) ''groceries'',
      expense_of ''2'' (1 / 4) ''water'', expense_of ''3'' (31 / 4) ''groceries''] = Fin (41 / 2)"
    using exact_total_sum [OF exact_total_sample(1)] by (simp add: expense_of_def)
  then show ?thesis
    using category_values_sum_to_total
      [OF sample_categories_own exact_total_sample(1) sample_categories_exact]
    by simp
qed

text \<open>
  The claim as stated fails on ordinary categories: with 0.3 and 0.1 under one category
  and 0.2 under another, the values are 0.4 and 0.2. Their sum is not the total 0.6,
  whether it is taken exactly or with \<^verbatim>\<open>+\<close> in either order.
\<close>

theorem category_values_sum_counterexample:
  "expensesByCategory [expense_of ''1'' three_tenths ''groceries'',
      expense_of ''2'' two_tenths ''water'', expense_of ''3'' tenth ''groceries'']
     = [(''groceries'', Num (Fin (3602879701896397 / 2 ^ 53))), (''water'', Num (Fin two_tenths))] \<and>
   totalExpenses [expense_of ''1'' three_tenths ''groceries'',
      expense_of ''2'' two_tenths ''water'', expense_of ''3'' tenth ''groceries'']
     = Fin (5404319552844595 / 2 ^ 53) \<and>
   sum_of_values (expensesByCategory [expense_of ''1'' three_tenths ''groceries'',
      expense_of ''2'' two_tenths ''water'', expense_of ''3'' tenth ''groceries''])
     = Some (10808639105689191 / 2 ^ 54) \<and>
   fadd (Fin (3602879701896397 / 2 ^ 53)) (Fin two_tenths) = Fin (5404319552844596 / 2 ^ 53) \<and>
   fadd (Fin two_tenths) (Fin (3602879701896397 / 2 ^ 53)) = Fin (5404319552844596 / 2 ^ 53)"
  by (intro conjI) code_simp+

section \<open>Calendar dates and the month selector\<close>

definition leap_year :: "int \<Rightarrow> bool" where
  "leap_year y = ((y mod 4 = 0 \<and> y mod 100 \<noteq> 0) \<or> y mod 400 = 0)"

text \<open>The length of month \<open>m\<close> (1 to 12) of year \<open>y\<close>.\<close>

definition days_in_month :: "int \<Rightarrow> int \<Rightarrow> int" where
  "days_in_month y m = (if m = 2 then (if leap_year y then 29 else 28)
     else if m = 4 \<or> m = 6 \<or> m = 9 \<or> m = 11 then 30 else 31)"

text \<open>
  A JavaScript \<^verbatim>\<open>Date\<close> by its calendar fields (\<^verbatim>\<open>getFullYear\<close>, \<^verbatim>\<open>getMonth\<close> counted
  from 0, \<^verbatim>\<open>getDate\<close>), on a host whose time zone is UTC, so that the local fields that
  \<^verbatim>\<open>setMonth\<close> works on and the UTC fields that \<^verbatim>\<open>toISOString\<close> prints coincide. The
  time of day plays no part.
\<close>

record jsdate =
  getFullYear :: int
  getMonth :: int
  getDate :: int

text \<open>
  \<^verbatim>\<open>date.setMonth(mo)\<close>: the month may be any integer and carries into the year; the day
  of the month is kept, and a day beyond the end of the month reached carries into the
  month after it.
\<close>

definition setMonth :: "int \<Rightarrow> jsdate \<Rightarrow> jsdate" where
  "setMonth mo d = (let ym = getFullYear d * 12 + mo;
       len = days_in_month (ym div 12) (ym mod 12 + 1)
     in if getDate d \<le> len
        then \<lparr>getFullYear = ym div 12, getMonth = ym mod 12, getDate = getDate d\<rparr>
        else \<lparr>getFullYear = (ym + 1) div 12, getMonth = (ym + 1) mod 12,
               getDate = getDate d - len\<rparr>)"

definition digit :: "int \<Rightarrow> char" where
  "digit n = ''0123456789'' ! nat (n mod 10)"

definition digits2 :: "int \<Rightarrow> string" where
  "digits2 n = [digit (n div 10), digit n]"

definition digits4 :: "int \<Rightarrow> string" where
  "digits4 n = [digit (n div 1000), digit (n div 100), digit (n div 10), digit n]"

definition digits6 :: "int \<Rightarrow> string" where
  "digits6 n = [digit (n div 100000), digit (n div 10000)] @ digits4 n"

text \<open>
  \<^verbatim>\<open>date.toISOString().slice(0, 7)\<close>: \<^verbatim>\<open>YYYY-MM\<close> for the years 0 to 9999; other years
  are printed with a sign and six digits, which fill the seven characters.
\<close>

definition iso_month :: "jsdate \<Rightarrow> string" where
  "iso_month d = (if 0 \<le> getFullYear d \<and> getFullYear d \<le> 9999
     then digits4 (getFullYear d) @ ''-'' @ digits2 (getMonth d + 1)
     else (if getFullYear d < 0 then ''-'' else ''+'') @ digits6 \<bar>getFullYear d\<bar>)"

text \<open>
  The options of the month selector:
  \<^verbatim>\<open>Array.from({ length: 12 }, (_, i) => { const date = new Date();
  date.setMonth(date.getMonth() - i); const value = date.toISOString().slice(0, 7); ... })\<close>
\<close>

definition month_options :: "jsdate \<Rightarrow> string list" where
  "month_options now = map (\<lambda>i. iso_month (setMonth (getMonth now - int i) now)) [0..<12]"

lemma month_options_length: "length (month_options now) = 12"
  by (simp add: month_options_def)

lemma days_in_month_ge: "28 \<le> days_in_month y m"
  by (simp add: days_in_month_def)

lemma setMonth_short_day:
  "getDate d \<le> 28 \<Longrightarrow> setMonth mo d =
     \<lparr>getFullYear = (getFullYear d * 12 + mo) div 12,
      getMonth = (getFullYear d * 12 + mo) mod 12, getDate = getDate d\<rparr>"
  using days_in_month_ge [of "(getFullYear d * 12 + mo) div 12" "(getFullYear d * 12 + mo) mod 12 + 1"]
  by (simp add: setMonth_def Let_def)

text \<open>
  Up to the 28th of a month the day exists in every month, and entry \<open>i\<close> of the list
  is the month \<open>i\<close> months before the current one.
\<close>

lemma month_options_nth:
  "getDate now \<le> 28 \<Longrightarrow> i < 12 \<Longrightarrow> month_options now ! i =
     iso_month \<lparr>getFullYear = (getFullYear now * 12 + getMonth now - int i) div 12,
       getMonth = (getFullYear now * 12 + getMonth now - int i) mod 12,
       getDate = getDate now\<rparr>"
  by (simp add: month_options_def setMonth_short_day algebra_simps)

text \<open>
  C5 at the current date 31 March 2024. The list has twelve entries, but February is
  missing: 31 February carries into March, so entries 0 and 1 are both March 2024, and
  the list holds only seven different months.
\<close>

theorem month_options_on_31_March:
  "month_options \<lparr>getFullYear = 2024, getMonth = 2, getDate = 31\<rparr>
     = [''2024-03'', ''2024-03'', ''2024-01'', ''2023-12'', ''2023-12'', ''2023-10'',
        ''2023-10'', ''2023-08'', ''2023-07'', ''2023-07'', ''2023-05'', ''2023-05'']"
  by code_simp

section \<open>The expense query and the store\<close>

text \<open>
  The request that \<^verbatim>\<open>fetchExpenses\<close> builds:
  \<^verbatim>\<open>supabase.from("expenses").select("*").gte("date", `${selectedMonth}-01`)
  .lt("date", `${selectedMonth}-32`).order("date", { ascending: false })\<close>
\<close>

datatype comparison = Gte | Lt

record select_query =
  from_table :: string
  filters :: "(string \<times> comparison \<times> string) list"
  order_column :: string
  ascending :: bool

definition fetchExpenses_query :: "string \<Rightarrow> select_query" where
  "fetchExpenses_query selectedMonth =
     \<lparr>from_table = ''expenses'',
      filters = [(''date'', Gte, selectedMonth @ ''-01''), (''date'', Lt, selectedMonth @ ''-32'')],
      order_column = ''date'', ascending = False\<rparr>"

text \<open>
  The table declares \<^verbatim>\<open>date DATE NOT NULL\<close>, so the store converts the text of a filter
  on that column to a date before it compares. The conversion of the ISO form
  \<^verbatim>\<open>YYYY-MM-DD\<close> accepts the days that the month has and rejects any other with
  \<^verbatim>\<open>date/time field value out of range\<close>.
\<close>

fun split_on :: "char \<Rightarrow> string \<Rightarrow> string list" where
  "split_on c [] = [[]]"
| "split_on c (x # xs) = (if x = c then [] # split_on c xs
     else (case split_on c xs of f # fs \<Rightarrow> (x # f) # fs | [] \<Rightarrow> [[x]]))"

definition digit_value :: "char \<Rightarrow> int option" where
  "digit_value c = map_of [(CHR ''0'', 0), (CHR ''1'', 1), (CHR ''2'', 2), (CHR ''3'', 3),
     (CHR ''4'', 4), (CHR ''5'', 5), (CHR ''6'', 6), (CHR ''7'', 7), (CHR ''8'', 8),
     (CHR ''9'', 9)] c"

fun number_from :: "int \<Rightarrow> string \<Rightarrow> int option" where
  "number_from n [] = Some n"
| "number_from n (c # cs) = (case digit_value c of None \<Rightarrow> None
     | Some v \<Rightarrow> number_from (10 * n + v) cs)"

definition number_of :: "string \<Rightarrow> int option" where
  "number_of s = (if s = [] then None else number_from 0 s)"

type_synonym sqldate = "int \<times> int \<times> int"

definition valid_date :: "int \<Rightarrow> int \<Rightarrow> int \<Rightarrow> bool" where
  "valid_date y m d = (1 \<le> y \<and> 1 \<le> m \<and> m \<le> 12 \<and> 1 \<le> d \<and> d \<le> days_in_month y m)"

definition date_in :: "string \<Rightarrow> sqldate option" where
  "date_in s = (case map number_of (split_on CHR ''-'' s) of
       [Some y, Some m, Some d] \<Rightarrow> if valid_date y m d then Some (y, m, d) else None
     | _ \<Rightarrow> None)"

definition day_number :: "sqldate \<Rightarrow> int" where
  "day_number x = (case x of (y, m, d) \<Rightarrow> (y * 12 + m) * 31 + d)"

datatype store_error = DateOutOfRange string

text \<open>A stored row: its owner (\<^verbatim>\<open>user_id\<close>) and the columns the Dashboard reads.\<close>

record stored_row =
  user_id :: "string option"
  columns :: expense

definition filter_bound :: "string \<times> comparison \<times> string \<Rightarrow> store_error + comparison \<times> sqldate" where
  "filter_bound f = (case f of (column, cmp, text) \<Rightarrow>
     (case date_in text of None \<Rightarrow> Inl (DateOutOfRange text) | Some d \<Rightarrow> Inr (cmp, d)))"

fun filter_bounds :: "(string \<times> comparison \<times> string) list \<Rightarrow> store_error + (comparison \<times> sqldate) list" where
  "filter_bounds [] = Inr []"
| "filter_bounds (f # fs) = (case filter_bound f of Inl e \<Rightarrow> Inl e
     | Inr b \<Rightarrow> (case filter_bounds fs of Inl e \<Rightarrow> Inl e | Inr bs \<Rightarrow> Inr (b # bs)))"

definition satisfies :: "sqldate \<Rightarrow> comparison \<times> sqldate \<Rightarrow> bool" where
  "satisfies d b = (case b of (Gte, x) \<Rightarrow> day_number x \<le> day_number d
     | (Lt, x) \<Rightarrow> day_number d < day_number x)"

text \<open>
  The select: the bounds are converted first; then the rows of the caller (policy
  \<^verbatim>\<open>auth.uid() = user_id\<close>) that satisfy every bound are returned, latest date first.
\<close>

definition run_select :: "string option \<Rightarrow> stored_row list \<Rightarrow> select_query \<Rightarrow> store_error + expense list" where
  "run_select uid rows q = (case filter_bounds (filters q) of Inl e \<Rightarrow> Inl e
     | Inr bs \<Rightarrow> Inr (map columns (sort_key (\<lambda>r. - (case date_in (date (columns r)) of
           Some d \<Rightarrow> day_number d | None \<Rightarrow> 0))
         (filter (\<lambda>r. uid \<noteq> None \<and> user_id r = uid \<and>
            (case date_in (date (columns r)) of None \<Rightarrow> False
             | Some d \<Rightarrow> list_all (satisfies d) bs)) rows))))"

lemma split_on_nonempty: "split_on c s \<noteq> []"
  by (induction s) (auto split: list.splits)

lemma split_on_no_separator: "c \<notin> set w \<Longrightarrow> split_on c w = [w]"
  by (induction w) auto

lemma split_on_append:
  "c \<notin> set w \<Longrightarrow> split_on c (s @ c # w) = split_on c s @ [w]"
proof (induction s)
  case Nil
  then show ?case by (simp add: split_on_no_separator)
next
  case (Cons x s)
  obtain f fs where "split_on c s = f # fs"
    using split_on_nonempty [of c s] by (cases "split_on c s") auto
  with Cons show ?case by simp
qed

lemma days_in_month_le: "days_in_month y m \<le> 31"
  by (simp add: days_in_month_def)

lemma number_of_32: "number_of ''32'' = Some 32"
  by (simp add: number_of_def digit_value_def)

text \<open>No month has a day 32: the upper bound of the query is never a date.\<close>

lemma date_in_day_32: "date_in (m @ ''-32'') = None"
proof -
  have "split_on CHR ''-'' (m @ ''-32'') = split_on CHR ''-'' m @ [''32'']"
    using split_on_append [of "CHR ''-''" "''32''" m] by simp
  then have fields: "map number_of (split_on CHR ''-'' (m @ ''-32''))
      = map number_of (split_on CHR ''-'' m) @ [Some 32]"
    by (simp add: number_of_32)
  have "\<not> valid_date y mo 32" for y mo
    using days_in_month_le [of y mo] by (simp add: valid_date_def)
  then show ?thesis
    unfolding date_in_def fields
    by (cases "map number_of (split_on CHR ''-'' m)")
       (auto split: list.splits option.splits)
qed

lemma date_in_first_day:
  "date_in ''2024-01-01'' = Some (2024, 1, 1)" "date_in ''2024-01-31'' = Some (2024, 1, 31)"
  "date_in ''2024-02-01'' = Some (2024, 2, 1)" "date_in ''2024-02-30'' = None"
  by code_simp+

text \<open>Whatever the month and the table, the store answers the request with an error.\<close>

lemma fetchExpenses_query_never_answered:
  "\<exists>e. run_select uid rows (fetchExpenses_query m) = Inl e"
  by (simp add: run_select_def fetchExpenses_query_def filter_bound_def date_in_day_32
      split: option.splits)

text \<open>
  C3 at the month \<^verbatim>\<open>2024-01\<close>: whatever the table holds, the store rejects the request,
  because the upper bound \<^verbatim>\<open>2024-01-32\<close> is not a date. No record is selected, the one
  dated 2024-01-31 included.
\<close>

theorem fetchExpenses_query_rejected:
  "run_select uid rows (fetchExpenses_query ''2024-01'') = Inl (DateOutOfRange ''2024-01-32'')"
proof -
  have "date_in ''2024-01-32'' = None"
    using date_in_day_32 [of "''2024-01''"] by simp
  then show ?thesis
    by (simp add: run_select_def fetchExpenses_query_def filter_bound_def date_in_first_day)
qed

section \<open>The Dashboard\<close>

text \<open>
  The state of the component (\<^verbatim>\<open>useState\<close>), with what it has written to
  \<^verbatim>\<open>console.error\<close> and the requests it has issued to the identity provider, the store
  and the router.
\<close>

datatype request = AuthGetUser | SelectExpenses select_query | AuthSignOut | RouterPush string

record dashboard =
  expenses :: "expense list"
  loading :: bool
  selectedMonth :: string
  showAddDialog :: bool
  user :: "string option"
  console_errors :: "store_error list"
  requests :: "request list"

text \<open>The first render: \<^verbatim>\<open>useState(new Date().toISOString().slice(0, 7))\<close> and so on.\<close>

definition initial_dashboard :: "jsdate \<Rightarrow> dashboard" where
  "initial_dashboard now = \<lparr>expenses = [], loading = True, selectedMonth = iso_month now,
     showAddDialog = False, user = None, console_errors = [], requests = []\<rparr>"

text \<open>\<^verbatim>\<open>getUser\<close> up to its \<^verbatim>\<open>await\<close>, and its continuation \<^verbatim>\<open>setUser(user)\<close>.\<close>

definition getUser :: "dashboard \<Rightarrow> dashboard" where
  "getUser s = s\<lparr>requests := requests s @ [AuthGetUser]\<rparr>"

definition getUser_resolved :: "string option \<Rightarrow> dashboard \<Rightarrow> dashboard" where
  "getUser_resolved u s = s\<lparr>user := u\<rparr>"

text \<open>
  \<^verbatim>\<open>fetchExpenses\<close> up to its \<^verbatim>\<open>await\<close>: \<^verbatim>\<open>setLoading(true)\<close> and the request. Its
  continuation receives \<^verbatim>\<open>{ data, error }\<close>:
  \<^verbatim>\<open>if (error) { console.error("Error fetching expenses:", error) }
  else { setExpenses(data || []) }; setLoading(false)\<close>
\<close>

definition fetchExpenses_issued :: "dashboard \<Rightarrow> dashboard" where
  "fetchExpenses_issued s = s\<lparr>loading := True,
     requests := requests s @ [SelectExpenses (fetchExpenses_query (selectedMonth s))]\<rparr>"

definition fetchExpenses_resolved :: "store_error + expense list option \<Rightarrow> dashboard \<Rightarrow> dashboard" where
  "fetchExpenses_resolved response s = (case response of
       Inl error \<Rightarrow> s\<lparr>console_errors := console_errors s @ [error], loading := False\<rparr>
     | Inr data \<Rightarrow> s\<lparr>expenses := (case data of Some rows \<Rightarrow> rows | None \<Rightarrow> []),
         loading := False\<rparr>)"

definition fetchExpenses :: "store_error + expense list option \<Rightarrow> dashboard \<Rightarrow> dashboard" where
  "fetchExpenses response s = fetchExpenses_resolved response (fetchExpenses_issued s)"

text \<open>
  \<^verbatim>\<open>useEffect(() => { getUser(); fetchExpenses() }, [selectedMonth])\<close>: the effect runs
  after the first render and after every render in which \<^verbatim>\<open>selectedMonth\<close> has changed.
\<close>

definition effect :: "dashboard \<Rightarrow> dashboard" where
  "effect s = fetchExpenses_issued (getUser s)"

datatype event =
    Mount
  | MonthSelected string  \<comment> \<open>\<^verbatim>\<open>onValueChange={setSelectedMonth}\<close>\<close>
  | UserLoaded "string option"
  | ExpensesLoaded "store_error + expense list option"
  | AddExpenseClicked  \<comment> \<open>\<^verbatim>\<open>setShowAddDialog(true)\<close>\<close>
  | DialogOpenChange bool  \<comment> \<open>\<^verbatim>\<open>onOpenChange={setShowAddDialog}\<close>\<close>
  | ExpenseAdded  \<comment> \<open>\<^verbatim>\<open>onExpenseAdded={fetchExpenses}\<close>\<close>
  | SignOutClicked

fun dashboard_step :: "event \<Rightarrow> dashboard \<Rightarrow> dashboard" where
  "dashboard_step Mount s = effect s"
| "dashboard_step (MonthSelected m) s =
     (if m = selectedMonth s then s else effect (s\<lparr>selectedMonth := m\<rparr>))"
| "dashboard_step (UserLoaded u) s = getUser_resolved u s"
| "dashboard_step (ExpensesLoaded response) s = fetchExpenses_resolved response s"
| "dashboard_step AddExpenseClicked s = s\<lparr>showAddDialog := True\<rparr>"
| "dashboard_step (DialogOpenChange b) s = s\<lparr>showAddDialog := b\<rparr>"
| "dashboard_step ExpenseAdded s = fetchExpenses_issued s"
| "dashboard_step SignOutClicked s =
     s\<lparr>requests := requests s @ [AuthSignOut, RouterPush ''/auth/login'']\<rparr>"

definition run_events :: "event list \<Rightarrow> dashboard \<Rightarrow> dashboard" where
  "run_events evs s = foldl (\<lambda>s ev. dashboard_step ev s) s evs"

text \<open>
  C4, as the code has it. When the query fails, the error is logged, the loading flag
  is cleared and nothing is raised; the expense list keeps the records it held before
  the request (it is empty only if it was empty before, as on the first load).
\<close>

theorem fetchExpenses_failure_keeps_list:
  "expenses (fetchExpenses (Inl error) s) = expenses s \<and>
   console_errors (fetchExpenses (Inl error) s) = console_errors s @ [error] \<and>
   loading (fetchExpenses (Inl error) s) = False \<and>
   selectedMonth (fetchExpenses (Inl error) s) = selectedMonth s"
  by (simp add: fetchExpenses_def fetchExpenses_resolved_def fetchExpenses_issued_def)

text \<open>
  The claim as stated fails: after a month whose records were loaded, a failing query
  for the next month leaves those records on display.
\<close>

theorem fetchExpenses_failure_counterexample:
  "expenses (run_events
      [Mount, ExpensesLoaded (Inr (Some [expense_of ''1'' (25 / 2) ''groceries''])),
       MonthSelected ''2024-02'', ExpensesLoaded (Inl (DateOutOfRange ''2024-02-32''))]
      (initial_dashboard \<lparr>getFullYear = 2024, getMonth = 2, getDate = 15\<rparr>))
     = [expense_of ''1'' (25 / 2) ''groceries''] \<and>
   expenses (fetchExpenses (Inl (DateOutOfRange ''2024-02-32''))
      ((initial_dashboard \<lparr>getFullYear = 2024, getMonth = 2, getDate = 15\<rparr>)
         \<lparr>expenses := [expense_of ''1'' (25 / 2) ''groceries'']\<rparr>)) \<noteq> []"
  by (simp add: run_events_def effect_def getUser_def fetchExpenses_def
      fetchExpenses_resolved_def fetchExpenses_issued_def initial_dashboard_def)

lemma count_GetUser_effect:
  "count_list (requests (effect s)) AuthGetUser = count_list (requests s) AuthGetUser + 1"
  by (simp add: effect_def getUser_def fetchExpenses_issued_def)

text \<open>
  C9, as the code has it. The user is fetched by the effect, that is once on mount and
  once more on every change of the selected month; no other event fetches it.
\<close>

theorem getUser_calls_per_event:
  "count_list (requests (dashboard_step ev s)) AuthGetUser =
     count_list (requests s) AuthGetUser +
       (if ev = Mount \<or> (\<exists>m. ev = MonthSelected m \<and> m \<noteq> selectedMonth s) then 1 else 0)"
  by (cases ev)
     (simp_all add: count_GetUser_effect getUser_resolved_def fetchExpenses_resolved_def
        fetchExpenses_issued_def split: sum.splits)

lemma iso_month_sample:
  "iso_month \<lparr>getFullYear = 2024, getMonth = 2, getDate = 15\<rparr> = ''2024-03''"
  by code_simp

text \<open>The claim as stated fails: one change of the month fetches the user a second time.\<close>

theorem getUser_refetched_counterexample:
  "count_list (requests (run_events [Mount, MonthSelected ''2024-02'']
      (initial_dashboard \<lparr>getFullYear = 2024, getMonth = 2, getDate = 15\<rparr>))) AuthGetUser = 2"
  by (simp add: run_events_def effect_def getUser_def fetchExpenses_issued_def
      initial_dashboard_def iso_month_sample)

text \<open>
  The Dashboard against the store: the request of \<^verbatim>\<open>fetchExpenses\<close> is answered by
  \<open>run_select\<close>. Since the store rejects the request, no load ever changes the list.
\<close>

definition fetchExpenses_from :: "string option \<Rightarrow> stored_row list \<Rightarrow> dashboard \<Rightarrow> dashboard" where
  "fetchExpenses_from uid rows s =
     fetchExpenses (map_sum id Some (run_select uid rows (fetchExpenses_query (selectedMonth s)))) s"

lemma fetchExpenses_from_store:
  "expenses (fetchExpenses_from uid rows s) = expenses s \<and>
   length (console_errors (fetchExpenses_from uid rows s)) = Suc (length (console_errors s))"
proof -
  obtain e where "run_select uid rows (fetchExpenses_query (selectedMonth s)) = Inl e"
    using fetchExpenses_query_never_answered by blast
  then show ?thesis
    by (simp add: fetchExpenses_from_def fetchExpenses_def fetchExpenses_resolved_def
        fetchExpenses_issued_def)
qed

text \<open>What the two callbacks of the entry form do in the Dashboard.\<close>

lemma expense_added_refetches:
  "requests (dashboard_step ExpenseAdded s)
     = requests s @ [SelectExpenses (fetchExpenses_query (selectedMonth s))] \<and>
   loading (dashboard_step ExpenseAdded s) = True \<and>
   showAddDialog (dashboard_step (DialogOpenChange False) s) = False"
  by (simp add: fetchExpenses_issued_def)

section \<open>The entry form\<close>

text \<open>The state of \<^verbatim>\<open>AddExpenseDialog\<close>, with the two things its parent owns: whether
  the dialog is open (\<^verbatim>\<open>open\<close>) and how often it was told that an expense was added.\<close>

record form =
  form_amount :: string
  form_category :: string
  form_description :: string
  form_date :: string
  form_loading :: bool
  form_error :: string
  dialog_open :: bool
  expense_added_calls :: nat

type_synonym payload = "(string \<times> jsval) list"

text \<open>What \<^verbatim>\<open>handleSubmit\<close> does, in order.\<close>

datatype action =
    SetAmount string | SetCategory string | SetDescription string | SetDate string
  | SetLoading bool | SetError string
  | Insert payload  \<comment> \<open>\<^verbatim>\<open>await supabase.from("expenses").insert([...])\<close>\<close>
  | OnExpenseAdded | OnOpenChange bool

text \<open>
  The object literal passed to \<^verbatim>\<open>insert\<close>. \<^verbatim>\<open>Number.parseFloat\<close> is a parameter of the
  model.
\<close>

definition insert_payload :: "(string \<Rightarrow> number) \<Rightarrow> form \<Rightarrow> payload" where
  "insert_payload parseFloat f =
     [(''amount'', Num (parseFloat (form_amount f))),
      (''category'', Str (Chars (form_category f))),
      (''description'', Str (Chars (form_description f))),
      (''date'', Str (Chars (form_date f)))]"

text \<open>
  \<^verbatim>\<open>handleSubmit\<close>. \<open>configured\<close> is \<^verbatim>\<open>hasRequiredEnvVars\<close> (the client exists),
  \<open>response\<close> is the \<^verbatim>\<open>error\<close> of the store's answer (\<open>None\<close> for null, else its
  message), and \<open>today\<close> is \<^verbatim>\<open>new Date().toISOString().split("T")[0]\<close> at the time of
  the reset.
\<close>

definition handleSubmit :: "bool \<Rightarrow> (string \<Rightarrow> number) \<Rightarrow> string option \<Rightarrow> string \<Rightarrow> form \<Rightarrow> action list" where
  "handleSubmit configured parseFloat response today f =
     (if \<not> configured
      then [SetError ''Application is not properly configured. Please contact support.'']
      else [SetLoading True, SetError [], Insert (insert_payload parseFloat f)] @
           (case response of
              Some message \<Rightarrow> [SetError message]
            | None \<Rightarrow> [SetAmount [], SetCategory [], SetDescription [], SetDate today,
                OnExpenseAdded, OnOpenChange False]) @
           [SetLoading False])"

fun perform :: "action \<Rightarrow> form \<Rightarrow> form" where
  "perform (SetAmount v) f = f\<lparr>form_amount := v\<rparr>"
| "perform (SetCategory v) f = f\<lparr>form_category := v\<rparr>"
| "perform (SetDescription v) f = f\<lparr>form_description := v\<rparr>"
| "perform (SetDate v) f = f\<lparr>form_date := v\<rparr>"
| "perform (SetLoading b) f = f\<lparr>form_loading := b\<rparr>"
| "perform (SetError v) f = f\<lparr>form_error := v\<rparr>"
| "perform (Insert p) f = f"
| "perform OnExpenseAdded f = f\<lparr>expense_added_calls := Suc (expense_added_calls f)\<rparr>"
| "perform (OnOpenChange b) f = f\<lparr>dialog_open := b\<rparr>"

definition submit :: "bool \<Rightarrow> (string \<Rightarrow> number) \<Rightarrow> string option \<Rightarrow> string \<Rightarrow> form \<Rightarrow> form" where
  "submit configured parseFloat response today f =
     foldl (\<lambda>f a. perform a f) f (handleSubmit configured parseFloat response today f)"

text \<open>\<^verbatim>\<open>{error && (<Alert> ... {error} ... </Alert>)}\<close>: the alert that is rendered.\<close>

definition alert :: "form \<Rightarrow> string option" where
  "alert f = (if form_error f = [] then None else Some (form_error f))"

text \<open>
  C6. A submission answered with a store failure of message \<open>m\<close> sets the error of the
  form to \<open>m\<close>, which the alert shows (an empty message renders no alert); it does not
  call \<^verbatim>\<open>onOpenChange\<close> or \<^verbatim>\<open>onExpenseAdded\<close>, so the dialog stays as it was, and the four
  fields keep what the user entered.
\<close>

theorem submit_failure:
  "handleSubmit True parseFloat (Some m) today f =
     [SetLoading True, SetError [], Insert (insert_payload parseFloat f), SetError m,
      SetLoading False] \<and>
   form_error (submit True parseFloat (Some m) today f) = m \<and>
   alert (submit True parseFloat (Some m) today f) = (if m = [] then None else Some m) \<and>
   dialog_open (submit True parseFloat (Some m) today f) = dialog_open f \<and>
   expense_added_calls (submit True parseFloat (Some m) today f) = expense_added_calls f \<and>
   form_amount (submit True parseFloat (Some m) today f) = form_amount f \<and>
   form_category (submit True parseFloat (Some m) today f) = form_category f \<and>
   form_description (submit True parseFloat (Some m) today f) = form_description f \<and>
   form_date (submit True parseFloat (Some m) today f) = form_date f"
  by (simp add: submit_def handleSubmit_def alert_def)

text \<open>
  C7. A submission answered with success awaits the store, then resets the four fields
  (amount, category and description empty, the date today's), then tells the parent that
  an expense was added, then closes the dialog, in that order.
\<close>

theorem submit_success:
  "handleSubmit True parseFloat None today f =
     [SetLoading True, SetError [], Insert (insert_payload parseFloat f),
      SetAmount [], SetCategory [], SetDescription [], SetDate today,
      OnExpenseAdded, OnOpenChange False, SetLoading False] \<and>
   submit True parseFloat None today f =
     f\<lparr>form_amount := [], form_category := [], form_description := [], form_date := today,
       form_loading := False, form_error := [], dialog_open := False,
       expense_added_calls := Suc (expense_added_calls f)\<rparr>"
  by (simp add: submit_def handleSubmit_def)

section \<open>Insertion at the store\<close>

text \<open>
  The row \<^verbatim>\<open>NEW\<close> that the store builds from a payload: a column that the payload names
  takes the value sent, another column takes its default (\<^verbatim>\<open>gen_random_uuid()\<close> for
  \<^verbatim>\<open>id\<close>, \<^verbatim>\<open>NOW()\<close> for the two timestamps) or is null (\<open>None\<close>).
\<close>

type_synonym new_row = "(string \<times> jsval option) list"

definition table_columns :: "string list" where
  "table_columns = [''id'', ''user_id'', ''amount'', ''category'', ''description'', ''date'',
     ''created_at'', ''updated_at'']"

definition column_default :: "string \<Rightarrow> string \<Rightarrow> string \<Rightarrow> jsval option" where
  "column_default uuid now c = (if c = ''id'' then Some (Str (Chars uuid))
     else if c = ''created_at'' \<or> c = ''updated_at'' then Some (Str (Chars now)) else None)"

definition new_row :: "string \<Rightarrow> string \<Rightarrow> payload \<Rightarrow> new_row" where
  "new_row uuid now p = map (\<lambda>c. (c, case map_of p c of Some v \<Rightarrow> Some v
       | None \<Rightarrow> column_default uuid now c)) table_columns"

text \<open>
  \<^verbatim>\<open>CREATE TRIGGER set_user_id_trigger BEFORE INSERT ON expenses FOR EACH ROW EXECUTE
  FUNCTION set_user_id()\<close>, whose body is \<^verbatim>\<open>NEW.user_id = auth.uid(); RETURN NEW\<close>.
  \<open>auth_uid\<close> is the identity of the caller's session, if any.
\<close>

definition set_user_id :: "string option \<Rightarrow> new_row \<Rightarrow> new_row" where
  "set_user_id auth_uid new = AList.update ''user_id'' (map_option (\<lambda>u. Str (Chars u)) auth_uid) new"

definition before_insert :: "string option \<Rightarrow> string \<Rightarrow> string \<Rightarrow> payload \<Rightarrow> new_row" where
  "before_insert auth_uid uuid now p = set_user_id auth_uid (new_row uuid now p)"

text \<open>The payloads of the insert requests among the actions of a submission.\<close>

fun inserts :: "action list \<Rightarrow> payload list" where
  "inserts [] = []"
| "inserts (Insert p # as) = p # inserts as"
| "inserts (a # as) = inserts as"

lemma set_user_id_owner:
  "map_of (before_insert auth_uid uuid now p) ''user_id'' = Some (map_option (\<lambda>u. Str (Chars u)) auth_uid)"
  by (simp add: before_insert_def set_user_id_def update_conv')

text \<open>
  C8. Every submission sends at most one create request (none when the client is not
  configured); its payload has exactly the four fields amount, category, description and
  date, the amount being \<^verbatim>\<open>Number.parseFloat\<close> of the text entered, and carries no
  \<^verbatim>\<open>user_id\<close>, \<^verbatim>\<open>id\<close>, \<^verbatim>\<open>created_at\<close> or \<^verbatim>\<open>updated_at\<close>. The owner of the row is
  set by the trigger of the store, to the identity of the caller's session.
\<close>

theorem insert_payload_fields:
  "inserts (handleSubmit configured parseFloat response today f) =
     (if configured then [insert_payload parseFloat f] else []) \<and>
   insert_payload parseFloat f =
     [(''amount'', Num (parseFloat (form_amount f))),
      (''category'', Str (Chars (form_category f))),
      (''description'', Str (Chars (form_description f))),
      (''date'', Str (Chars (form_date f)))] \<and>
   fst ` set (insert_payload parseFloat f) = {''amount'', ''category'', ''description'', ''date''} \<and>
   map_of (insert_payload parseFloat f) ''user_id'' = None \<and>
   map_of (insert_payload parseFloat f) ''id'' = None \<and>
   map_of (insert_payload parseFloat f) ''created_at'' = None \<and>
   map_of (insert_payload parseFloat f) ''updated_at'' = None \<and>
   map_of (before_insert auth_uid uuid now (insert_payload parseFloat f)) ''user_id''
     = Some (map_option (\<lambda>u. Str (Chars u)) auth_uid)"
proof (intro conjI)
  show "inserts (handleSubmit configured parseFloat response today f) =
     (if configured then [insert_payload parseFloat f] else [])"
    by (cases response) (simp_all add: handleSubmit_def)
  show "map_of (before_insert auth_uid uuid now (insert_payload parseFloat f)) ''user_id''
     = Some (map_option (\<lambda>u. Str (Chars u)) auth_uid)"
    by (rule set_user_id_owner)
qed (simp_all add: insert_payload_def)

text \<open>
  The submission of the specification's example, answered with success and then with the
  failure \<^verbatim>\<open>insufficient permissions\<close>.
\<close>

definition example_form :: form where
  "example_form = \<lparr>form_amount = ''45.50'', form_category = ''groceries'',
     form_description = ''Weekly shop'', form_date = ''2024-03-15'', form_loading = False,
     form_error = [], dialog_open = True, expense_added_calls = 0\<rparr>"

lemma example_submissions:
  "submit True parseFloat None ''2024-03-16'' example_form =
     \<lparr>form_amount = [], form_category = [], form_description = [], form_date = ''2024-03-16'',
      form_loading = False, form_error = [], dialog_open = False, expense_added_calls = 1\<rparr>"
  "submit True parseFloat (Some ''insufficient permissions'') ''2024-03-16'' example_form =
     example_form\<lparr>form_error := ''insufficient permissions''\<rparr>"
  by (simp_all add: submit_def handleSubmit_def example_form_def)

end
